theory Spec2Isabelle
  imports Main "HOL-Library.Word" "HOL-Library.Multiset"
begin

section \<open>TerrainEngineNode: data model\<close>

text \<open>
  A shallow embedding of \<^verbatim>\<open>src/osgEarth/TerrainEngineNode.cpp\<close>.  Objects the node only
  refers to (effects, callbacks, layers, tile models, the image layer controller) are
  identified by their address, a \<^typ>\<open>nat\<close>; a pointer that may be null is a
  \<^typ>\<open>nat option\<close>, with \<^term>\<open>None\<close> for the null pointer.  A \<^verbatim>\<open>ref_ptr\<close> member that the
  node only tests or dereferences is modelled by its validity, a \<^typ>\<open>bool\<close>.
\<close>

type_synonym effect = nat
type_synonym callback = nat
type_synonym layer = nat
type_synonym tile_model = nat
type_synonym controller = nat

text \<open>Dereferencing a null pointer is the only way an operation of this file fails.\<close>

datatype error = NullDereference

text \<open>The visitor kinds of \<^verbatim>\<open>osg::NodeVisitor\<close>; \<^verbatim>\<open>traverse\<close> tests two of them.\<close>

datatype visitor_type =
    NODE_VISITOR | UPDATE_VISITOR | EVENT_VISITOR | COLLECT_OCCLUDER_VISITOR
  | CULL_VISITOR | INTERSECTION_VISITOR

datatype init_stage = INIT_NONE | INIT_POSTINIT_COMPLETE

text \<open>
  The action of a \<^verbatim>\<open>MapModelChange\<close>.  The file compares it with \<^verbatim>\<open>ADD_LAYER\<close> and
  \<^verbatim>\<open>REMOVE_LAYER\<close> only; every other enumerator behaves alike and is \<open>OTHER_ACTION\<close> here.
\<close>

datatype action_type = ADD_LAYER | REMOVE_LAYER | OTHER_ACTION

text \<open>What \<^verbatim>\<open>getAction()\<close>, \<^verbatim>\<open>getImageLayer()\<close> and \<^verbatim>\<open>getElevationLayer()\<close> return.\<close>

record map_model_change =
  getAction :: action_type
  getImageLayer :: "layer option"
  getElevationLayer :: "layer option"

text \<open>A \<^verbatim>\<open>MapInfo\<close>, as far as \<^verbatim>\<open>onMapInfoEstablished\<close> reads it.\<close>

record map_info =
  info_profile_valid :: bool
  info_geocentric :: bool

text \<open>
  The \<^verbatim>\<open>Map\<close> handed to \<^verbatim>\<open>setMap\<close>, as far as the file reads it: whether it has a profile,
  whether it is geocentric, and the image layers a \<^verbatim>\<open>MapFrame\<close> over it lists.
\<close>

record map_data =
  map_profile_valid :: bool
  map_geocentric :: bool
  map_image_layers :: "layer list"

record terrain_options =
  binNumber :: "int option"

text \<open>
  Every call that leaves this file (a virtual hook of the node, a method of another
  object) is recorded, in order, in a log kept beside the node's fields.
\<close>

datatype event =
    OnInstall effect
  | OnUninstall effect
  | DirtyState
  | RequestRedraw
  | AddCallback layer "controller option"
  | RemoveCallback layer "controller option"
  | NotifyMapElevationChanged
  | OnCreateTileModel callback tile_model
  | OnVerticalScaleChanged
  | UpdateTextureCombining
  | PopulateCoordinateSystemNode
  | SetEllipsoidModelNull
  | SetTextureImageUnitOffLimits int
  | AddMapCallback
  | SetRenderBinDetails int
  | AdjustEventTravCount int
  | AdjustUpdateTravCount int
  | TerrainUpdate
  | BaseTraverse visitor_type
  | TileNodeCallback callback nat nat

text \<open>
  The fields of the node.  \<^verbatim>\<open>_dirtyCount\<close> is a machine integer whose declaration is in
  the header; its width is the parameter \<open>'w\<close>, and \<^verbatim>\<open>++\<close> wraps.  \<^verbatim>\<open>_verticalScale\<close> is
  a \<^verbatim>\<open>float\<close> that the file only stores: it is kept as its 32-bit pattern.
\<close>

record (overloaded) ('w::len) engine =
  m_verticalScale :: "32 word"
  m_initStage :: init_stage
  m_dirtyCount :: "'w word"
  m_requireElevationTextures :: bool
  m_requireNormalTextures :: bool
  m_requireParentTextures :: bool
  m_requireElevationBorder :: bool
  m_requireFullDataAtFirstLOD :: bool
  m_redrawRequired :: bool
  m_effects :: "effect list"
  m_createTileModelCallbacks :: "callback option list"
  m_tilePatchCallbacks :: "callback option list"
  m_tileNodeCallbacks :: "callback option list"
  m_computeRangeCallback :: "callback option"
  m_map :: bool
  m_terrainInterface :: bool
  m_textureResourceTracker :: bool
  m_tileModelFactory :: bool
  m_imageLayerController :: "controller option"
  calls :: "event list"

text \<open>The view of the node as \<^verbatim>\<open>TerrainEngineRequirements\<close> that the factory receives.\<close>

record requirements =
  elevationTexturesRequired :: bool
  normalTexturesRequired :: bool
  parentTexturesRequired :: bool
  elevationBorderRequired :: bool
  fullDataAtFirstLodRequired :: bool

definition requirements_of :: "'w::len engine \<Rightarrow> requirements" where
  "requirements_of s =
     \<lparr> elevationTexturesRequired = m_requireElevationTextures s,
       normalTexturesRequired = m_requireNormalTextures s,
       parentTexturesRequired = m_requireParentTextures s,
       elevationBorderRequired = m_requireElevationBorder s,
       fullDataAtFirstLodRequired = m_requireFullDataAtFirstLOD s \<rparr>"

definition emit :: "event \<Rightarrow> 'w::len engine \<Rightarrow> 'w engine" where
  "emit e s = s\<lparr>calls := calls s @ [e]\<rparr>"

section \<open>Operations\<close>

text \<open>The constructor: the member initialisers, then the two traversal registrations.\<close>

definition TerrainEngineNode :: "'w::len engine" where
  "TerrainEngineNode =
     \<lparr> m_verticalScale = 0x3F800000,
       m_initStage = INIT_NONE,
       m_dirtyCount = 0,
       m_requireElevationTextures = False,
       m_requireNormalTextures = False,
       m_requireParentTextures = False,
       m_requireElevationBorder = False,
       m_requireFullDataAtFirstLOD = False,
       m_redrawRequired = True,
       m_effects = [],
       m_createTileModelCallbacks = [],
       m_tilePatchCallbacks = [],
       m_tileNodeCallbacks = [],
       m_computeRangeCallback = None,
       m_map = False,
       m_terrainInterface = False,
       m_textureResourceTracker = False,
       m_tileModelFactory = False,
       m_imageLayerController = None,
       calls = [AdjustEventTravCount 1, AdjustUpdateTravCount 1] \<rparr>"

text \<open>\<^verbatim>\<open>dirtyState()\<close> is a virtual hook of the node, implemented by the drivers.\<close>

definition dirtyState :: "'w::len engine \<Rightarrow> 'w engine" where
  "dirtyState s = emit DirtyState s"

text \<open>
  \<^verbatim>\<open>if ( 0 == _dirtyCount++ )\<close>: the old value is compared, the counter is incremented
  in either case, and the views are notified when the old value was zero.
\<close>

definition requestRedraw :: "'w::len engine \<Rightarrow> 'w engine" where
  "requestRedraw s =
     (let old = m_dirtyCount s;
          s1 = s\<lparr>m_dirtyCount := old + 1\<rparr>
      in if old = 0 then emit RequestRedraw s1 else s1)"

definition dirtyTerrain :: "'w::len engine \<Rightarrow> 'w engine" where
  "dirtyTerrain s = requestRedraw s"

definition requireNormalTextures :: "'w::len engine \<Rightarrow> 'w engine" where
  "requireNormalTextures s = dirtyTerrain (s\<lparr>m_requireNormalTextures := True\<rparr>)"

definition requireElevationTextures :: "'w::len engine \<Rightarrow> 'w engine" where
  "requireElevationTextures s = dirtyTerrain (s\<lparr>m_requireElevationTextures := True\<rparr>)"

definition requireParentTextures :: "'w::len engine \<Rightarrow> 'w engine" where
  "requireParentTextures s = dirtyTerrain (s\<lparr>m_requireParentTextures := True\<rparr>)"

text \<open>
  \<^verbatim>\<open>addEffect\<close>: for a non-null effect, \<^verbatim>\<open>push_back\<close>, the install hook, \<^verbatim>\<open>dirtyState()\<close>.
\<close>

definition addEffect :: "effect option \<Rightarrow> 'w::len engine \<Rightarrow> 'w engine" where
  "addEffect effect s =
     (case effect of
        None \<Rightarrow> s
      | Some e \<Rightarrow> dirtyState (emit (OnInstall e) (s\<lparr>m_effects := m_effects s @ [e]\<rparr>)))"

text \<open>
  \<^verbatim>\<open>removeEffect\<close>: for a non-null effect, the uninstall hook first, then \<^verbatim>\<open>std::find\<close>
  and \<^verbatim>\<open>erase\<close> of the first occurrence when there is one (\<^const>\<open>remove1\<close>), then
  \<^verbatim>\<open>dirtyState()\<close>.
\<close>

definition removeEffect :: "effect option \<Rightarrow> 'w::len engine \<Rightarrow> 'w engine" where
  "removeEffect effect s =
     (case effect of
        None \<Rightarrow> s
      | Some e \<Rightarrow>
          (let s1 = emit (OnUninstall e) s;
               s2 = s1\<lparr>m_effects := remove1 e (m_effects s1)\<rparr>
           in dirtyState s2))"

definition setVerticalScale :: "32 word \<Rightarrow> 'w::len engine \<Rightarrow> 'w engine" where
  "setVerticalScale v s = emit OnVerticalScaleChanged (s\<lparr>m_verticalScale := v\<rparr>)"

text \<open>
  \<^verbatim>\<open>onMapInfoEstablished\<close> dereferences the profile of the \<^verbatim>\<open>MapInfo\<close> without a test.
\<close>

definition onMapInfoEstablished :: "map_info \<Rightarrow> 'w::len engine \<Rightarrow> error + 'w engine" where
  "onMapInfoEstablished mapInfo s =
     (if \<not> info_profile_valid mapInfo then Inl NullDereference
      else
        (let s1 = emit PopulateCoordinateSystemNode s
         in Inr (if \<not> info_geocentric mapInfo then emit SetEllipsoidModelNull s1 else s1)))"

text \<open>
  \<^verbatim>\<open>onMapModelChanged\<close>: the \<^verbatim>\<open>if\<close>/\<^verbatim>\<open>else if\<close> on the image layer, the separate \<^verbatim>\<open>if\<close> on
  the elevation layer (which dereferences \<^verbatim>\<open>getTerrain()\<close>, the \<^verbatim>\<open>_terrainInterface\<close>
  member), then \<^verbatim>\<open>requestRedraw()\<close>.
\<close>

definition onMapModelChanged :: "map_model_change \<Rightarrow> 'w::len engine \<Rightarrow> error + 'w engine" where
  "onMapModelChanged change s =
     (let s1 =
            (if getAction change = ADD_LAYER \<and> getImageLayer change \<noteq> None
             then emit (AddCallback (the (getImageLayer change)) (m_imageLayerController s)) s
             else if getAction change = REMOVE_LAYER \<and> getImageLayer change \<noteq> None
             then emit (RemoveCallback (the (getImageLayer change)) (m_imageLayerController s)) s
             else s)
      in if getElevationLayer change \<noteq> None
         then (if m_terrainInterface s1
               then Inr (requestRedraw (emit NotifyMapElevationChanged s1))
               else Inl NullDereference)
         else Inr (requestRedraw s1))"

text \<open>The loops of \<^verbatim>\<open>setMap\<close> and of the destructor over the image layers of the map.\<close>

fun addCallbacks :: "layer list \<Rightarrow> 'w::len engine \<Rightarrow> 'w engine" where
  "addCallbacks [] s = s"
| "addCallbacks (l # ls) s = addCallbacks ls (emit (AddCallback l (m_imageLayerController s)) s)"

fun removeCallbacks :: "layer list \<Rightarrow> 'w::len engine \<Rightarrow> 'w engine" where
  "removeCallbacks [] s = s"
| "removeCallbacks (l # ls) s =
     removeCallbacks ls (emit (RemoveCallback l (m_imageLayerController s)) s)"

fun setOffLimits :: "int list \<Rightarrow> 'w::len engine \<Rightarrow> 'w engine" where
  "setOffLimits [] s = s"
| "setOffLimits (i # is) s = setOffLimits is (emit (SetTextureImageUnitOffLimits i) s)"

text \<open>
  \<^verbatim>\<open>setMap\<close>.  The arguments beside the map and the options are what the body obtains from
  elsewhere: the off-limits texture image units of the registry, in the order the
  \<^verbatim>\<open>std::set\<close> lists them, and the address of the \<^verbatim>\<open>ImageLayerController\<close> it allocates.
  The profile of the map is dereferenced without a test before the later test of it.
\<close>

definition setMap ::
  "map_data option \<Rightarrow> terrain_options \<Rightarrow> int list \<Rightarrow> controller \<Rightarrow> 'w::len engine
     \<Rightarrow> error + 'w engine" where
  "setMap map' options offLimits ctrl s =
     (case map' of
        None \<Rightarrow> Inr s
      | Some m \<Rightarrow>
          (let s1 = s\<lparr>m_map := True, m_terrainInterface := True\<rparr>
           in if \<not> map_profile_valid m then Inl NullDereference
              else
                (let s2 = emit PopulateCoordinateSystemNode s1;
                     s3 = (if \<not> map_geocentric m then emit SetEllipsoidModelNull s2 else s2);
                     s4 = setOffLimits offLimits (s3\<lparr>m_textureResourceTracker := True\<rparr>);
                     s5 = emit AddMapCallback s4;
                     s6 = (case binNumber options of
                             Some b \<Rightarrow> emit (SetRenderBinDetails b) s5
                           | None \<Rightarrow> s5);
                     s7 = s6\<lparr>m_tileModelFactory := True\<rparr>
                 in case (if map_profile_valid m
                          then onMapInfoEstablished
                                 \<lparr>info_profile_valid = map_profile_valid m,
                                  info_geocentric = map_geocentric m\<rparr> s7
                          else Inr s7) of
                      Inl e \<Rightarrow> Inl e
                    | Inr s8 \<Rightarrow>
                        (let s9 = s8\<lparr>m_imageLayerController := Some ctrl\<rparr>;
                             s10 = addCallbacks (map_image_layers m) s9
                         in Inr (s10\<lparr>m_initStage := INIT_POSTINIT_COMPLETE\<rparr>)))))"

text \<open>
  The destructor; \<open>imageLayers\<close> is what the \<^verbatim>\<open>MapFrame\<close> over the map lists at that moment.
  The log outlives the node.
\<close>

definition destructor :: "layer list \<Rightarrow> 'w::len engine \<Rightarrow> event list" where
  "destructor imageLayers s =
     calls (if m_map s then removeCallbacks imageLayers s else s)"

text \<open>
  \<^verbatim>\<open>createTileModel\<close>.  The factory is another class: \<open>factory\<close> is its \<^verbatim>\<open>createTileModel\<close>,
  which receives the node as its requirements.  The loop over the registry dereferences
  each entry.
\<close>

fun fireCreateTileModelCallbacks ::
  "callback option list \<Rightarrow> tile_model \<Rightarrow> 'w::len engine \<Rightarrow> error + 'w engine" where
  "fireCreateTileModelCallbacks [] model s = Inr s"
| "fireCreateTileModelCallbacks (None # cbs) model s = Inl NullDereference"
| "fireCreateTileModelCallbacks (Some cb # cbs) model s =
     fireCreateTileModelCallbacks cbs model (emit (OnCreateTileModel cb model) s)"

definition createTileModel ::
  "('f \<Rightarrow> 'k \<Rightarrow> 'c \<Rightarrow> requirements \<Rightarrow> 'p \<Rightarrow> tile_model option)
     \<Rightarrow> 'f \<Rightarrow> 'k \<Rightarrow> 'c \<Rightarrow> 'p \<Rightarrow> 'w::len engine \<Rightarrow> error + ('w engine \<times> tile_model option)" where
  "createTileModel factory frame key filter' progress s =
     (if \<not> m_tileModelFactory s then Inl NullDereference
      else
        (case factory frame key filter' (requirements_of s) progress of
           None \<Rightarrow> Inr (s, None)
         | Some model \<Rightarrow>
             (case fireCreateTileModelCallbacks (m_createTileModelCallbacks s) model s of
                Inl e \<Rightarrow> Inl e
              | Inr s1 \<Rightarrow> Inr (s1, Some model))))"

definition addCreateTileModelCallback :: "callback option \<Rightarrow> 'w::len engine \<Rightarrow> 'w engine" where
  "addCreateTileModelCallback callback s =
     s\<lparr>m_createTileModelCallbacks := m_createTileModelCallbacks s @ [callback]\<rparr>"

text \<open>The loop erases the first entry equal to the callback and stops.\<close>

definition removeCreateTileModelCallback :: "callback option \<Rightarrow> 'w::len engine \<Rightarrow> 'w engine" where
  "removeCreateTileModelCallback callback s =
     s\<lparr>m_createTileModelCallbacks := remove1 callback (m_createTileModelCallbacks s)\<rparr>"

text \<open>
  \<^verbatim>\<open>traverse\<close>, with the disabled block left out: an event visitor resets the counter, an
  update visitor updates the terrain interface (dereferenced without a test), and the
  traversal of the base class follows.
\<close>

definition traverse :: "visitor_type \<Rightarrow> 'w::len engine \<Rightarrow> error + 'w engine" where
  "traverse vt s =
     (if vt = EVENT_VISITOR then Inr (emit (BaseTraverse vt) (s\<lparr>m_dirtyCount := 0\<rparr>))
      else if vt = UPDATE_VISITOR
      then (if m_terrainInterface s
            then Inr (emit (BaseTraverse vt) (emit TerrainUpdate s))
            else Inl NullDereference)
      else Inr (emit (BaseTraverse vt) s))"

fun notifyTileNodeCallbacks ::
  "callback option list \<Rightarrow> nat \<Rightarrow> nat \<Rightarrow> 'w::len engine \<Rightarrow> error + 'w engine" where
  "notifyTileNodeCallbacks [] key node s = Inr s"
| "notifyTileNodeCallbacks (None # cbs) key node s = Inl NullDereference"
| "notifyTileNodeCallbacks (Some cb # cbs) key node s =
     notifyTileNodeCallbacks cbs key node (emit (TileNodeCallback cb key node) s)"

definition notifyOfTerrainTileNodeCreation ::
  "nat \<Rightarrow> nat \<Rightarrow> 'w::len engine \<Rightarrow> error + 'w engine" where
  "notifyOfTerrainTileNodeCreation key node s =
     notifyTileNodeCallbacks (m_tileNodeCallbacks s) key node s"

definition addTilePatchCallback :: "callback option \<Rightarrow> 'w::len engine \<Rightarrow> 'w engine" where
  "addTilePatchCallback cb s = s\<lparr>m_tilePatchCallbacks := m_tilePatchCallbacks s @ [cb]\<rparr>"

text \<open>
  \<^verbatim>\<open>std::remove\<close> on a range: every element that differs from the value is assigned to
  the next free position from the front; the range keeps its length, and the positions
  behind the kept elements keep what they held.  \<open>std_remove_loop buf w xs v\<close> is the
  buffer after the elements \<open>xs\<close> still to be read have been handled, \<open>w\<close> being the next
  free position.
\<close>

fun std_remove_loop :: "'a list \<Rightarrow> nat \<Rightarrow> 'a list \<Rightarrow> 'a \<Rightarrow> 'a list" where
  "std_remove_loop buf w [] v = buf"
| "std_remove_loop buf w (x # xs) v =
     (if x = v then std_remove_loop buf w xs v
      else std_remove_loop (buf[w := x]) (Suc w) xs v)"

definition std_remove :: "'a list \<Rightarrow> 'a \<Rightarrow> 'a list" where
  "std_remove xs v = std_remove_loop xs 0 xs v"

text \<open>
  \<^verbatim>\<open>removeTilePatchCallback\<close> calls \<^verbatim>\<open>std::remove\<close> and drops the iterator it returns:
  nothing is erased from the vector.
\<close>

definition removeTilePatchCallback :: "callback option \<Rightarrow> 'w::len engine \<Rightarrow> 'w engine" where
  "removeTilePatchCallback cb s =
     s\<lparr>m_tilePatchCallbacks := std_remove (m_tilePatchCallbacks s) cb\<rparr>"

definition getComputeRangeCallback :: "'w::len engine \<Rightarrow> callback option" where
  "getComputeRangeCallback s = m_computeRangeCallback s"

definition setComputeRangeCallback :: "callback option \<Rightarrow> 'w::len engine \<Rightarrow> 'w engine" where
  "setComputeRangeCallback computeRangeCallback s =
     s\<lparr>m_computeRangeCallback := computeRangeCallback\<rparr>"

text \<open>
  \<^verbatim>\<open>ImageLayerController::onColorFiltersChanged\<close> calls the node's virtual
  \<^verbatim>\<open>updateTextureCombining()\<close>.
\<close>

definition onColorFiltersChanged :: "layer \<Rightarrow> 'w::len engine \<Rightarrow> 'w engine" where
  "onColorFiltersChanged l s = emit UpdateTextureCombining s"

subsection \<open>The map callback proxy\<close>

text \<open>
  The proxy holds an \<^verbatim>\<open>observer_ptr\<close> to the node.  \<open>node\<close> is what \<^verbatim>\<open>lock\<close> finds: the node
  when it is alive, nothing when it has been destroyed.  The result is the node after the
  notification.
\<close>

definition proxy_onMapInfoEstablished ::
  "map_info \<Rightarrow> 'w::len engine option \<Rightarrow> error + 'w engine option" where
  "proxy_onMapInfoEstablished mapInfo node =
     (case node of
        None \<Rightarrow> Inr None
      | Some safeNode \<Rightarrow>
          (case onMapInfoEstablished mapInfo safeNode of
             Inl e \<Rightarrow> Inl e
           | Inr s \<Rightarrow> Inr (Some s)))"

definition proxy_onMapModelChanged ::
  "map_model_change \<Rightarrow> 'w::len engine option \<Rightarrow> error + 'w engine option" where
  "proxy_onMapModelChanged change node =
     (case node of
        None \<Rightarrow> Inr None
      | Some safeNode \<Rightarrow>
          (case onMapModelChanged change safeNode of
             Inl e \<Rightarrow> Inl e
           | Inr s \<Rightarrow> Inr (Some s)))"

subsection \<open>Sequences of operations\<close>

text \<open>
  The operations of the file on a live node.  A \<^verbatim>\<open>createTileModel\<close> call carries what the
  factory returns for it.
\<close>

datatype op =
    Op_addEffect "effect option"
  | Op_removeEffect "effect option"
  | Op_requireNormalTextures
  | Op_requireElevationTextures
  | Op_requireParentTextures
  | Op_requestRedraw
  | Op_dirtyTerrain
  | Op_setMap "map_data option" terrain_options "int list" controller
  | Op_setVerticalScale "32 word"
  | Op_onMapInfoEstablished map_info
  | Op_onMapModelChanged map_model_change
  | Op_createTileModel "tile_model option"
  | Op_addCreateTileModelCallback "callback option"
  | Op_removeCreateTileModelCallback "callback option"
  | Op_traverse visitor_type
  | Op_notifyOfTerrainTileNodeCreation nat nat
  | Op_addTilePatchCallback "callback option"
  | Op_removeTilePatchCallback "callback option"
  | Op_setComputeRangeCallback "callback option"
  | Op_onColorFiltersChanged layer

fun apply_op :: "op \<Rightarrow> 'w::len engine \<Rightarrow> error + 'w engine" where
  "apply_op (Op_addEffect e) s = Inr (addEffect e s)"
| "apply_op (Op_removeEffect e) s = Inr (removeEffect e s)"
| "apply_op Op_requireNormalTextures s = Inr (requireNormalTextures s)"
| "apply_op Op_requireElevationTextures s = Inr (requireElevationTextures s)"
| "apply_op Op_requireParentTextures s = Inr (requireParentTextures s)"
| "apply_op Op_requestRedraw s = Inr (requestRedraw s)"
| "apply_op Op_dirtyTerrain s = Inr (dirtyTerrain s)"
| "apply_op (Op_setMap m opts offLimits ctrl) s = setMap m opts offLimits ctrl s"
| "apply_op (Op_setVerticalScale v) s = Inr (setVerticalScale v s)"
| "apply_op (Op_onMapInfoEstablished mapInfo) s = onMapInfoEstablished mapInfo s"
| "apply_op (Op_onMapModelChanged change) s = onMapModelChanged change s"
| "apply_op (Op_createTileModel r) s =
     (case createTileModel (\<lambda>frame key filter' reqs progress. r) () () () () s of
        Inl e \<Rightarrow> Inl e
      | Inr (s1, model) \<Rightarrow> Inr s1)"
| "apply_op (Op_addCreateTileModelCallback cb) s = Inr (addCreateTileModelCallback cb s)"
| "apply_op (Op_removeCreateTileModelCallback cb) s = Inr (removeCreateTileModelCallback cb s)"
| "apply_op (Op_traverse vt) s = traverse vt s"
| "apply_op (Op_notifyOfTerrainTileNodeCreation key node) s =
     notifyOfTerrainTileNodeCreation key node s"
| "apply_op (Op_addTilePatchCallback cb) s = Inr (addTilePatchCallback cb s)"
| "apply_op (Op_removeTilePatchCallback cb) s = Inr (removeTilePatchCallback cb s)"
| "apply_op (Op_setComputeRangeCallback cb) s = Inr (setComputeRangeCallback cb s)"
| "apply_op (Op_onColorFiltersChanged l) s = Inr (onColorFiltersChanged l s)"

text \<open>A sequence of operations stops at the first failure.\<close>

fun run :: "op list \<Rightarrow> 'w::len engine \<Rightarrow> error + 'w engine" where
  "run [] s = Inr s"
| "run (c # cs) s = (case apply_op c s of Inl e \<Rightarrow> Inl e | Inr s1 \<Rightarrow> run cs s1)"

text \<open>The number of redraw requests that have reached the views.\<close>

definition redraw_signals :: "'w::len engine \<Rightarrow> nat" where
  "redraw_signals s = length (filter (\<lambda>e. e = RequestRedraw) (calls s))"

subsection \<open>The map and its image layers\<close>

text \<open>
  Modelled from the spec: the callback list of an image layer, whose \<^verbatim>\<open>addCallback\<close> and
  \<^verbatim>\<open>removeCallback\<close> are not in this file.  \<^verbatim>\<open>addCallback\<close> subscribes the callback to the
  layer and \<^verbatim>\<open>removeCallback\<close> takes one subscription of it away, if there is one.
  \<open>layer_callbacks evs l\<close> is the list of the layer \<open>l\<close> after the calls \<open>evs\<close>, from no
  subscription at all.
\<close>

fun subscription_event ::
  "(layer \<Rightarrow> controller option list) \<Rightarrow> event \<Rightarrow> layer \<Rightarrow> controller option list" where
  "subscription_event f (AddCallback l c) = f(l := f l @ [c])"
| "subscription_event f (RemoveCallback l c) = f(l := remove1 c (f l))"
| "subscription_event f e = f"

definition layer_callbacks :: "event list \<Rightarrow> layer \<Rightarrow> controller option list" where
  "layer_callbacks evs = foldl subscription_event (\<lambda>l. []) evs"

text \<open>
  Modelled from the spec: the image layers of the map model, which is not in this file.
  A change notification tells what happened to the map: after \<^verbatim>\<open>ADD_LAYER\<close> with an image
  layer the map holds that layer once more, after \<^verbatim>\<open>REMOVE_LAYER\<close> with an image layer it
  holds it once less, and any other change leaves its image layers as they were.
\<close>

fun layers_after_change :: "layer list \<Rightarrow> map_model_change \<Rightarrow> layer list" where
  "layers_after_change ls change =
     (case getImageLayer change of
        None \<Rightarrow> ls
      | Some l \<Rightarrow>
          (if getAction change = ADD_LAYER then ls @ [l]
           else if getAction change = REMOVE_LAYER then remove1 l ls
           else ls))"

definition layers_after :: "layer list \<Rightarrow> map_model_change list \<Rightarrow> layer list" where
  "layers_after ls changes = foldl layers_after_change ls changes"

text \<open>
  Modelled from the spec: a layer joins the map when the map does not hold it yet.  A
  sequence of changes is consistent with a map holding the image layers \<open>ls\<close> when
  none of its \<^verbatim>\<open>ADD_LAYER\<close> changes carries an image layer that the map holds at that
  moment.
\<close>

fun changes_consistent :: "layer list \<Rightarrow> map_model_change list \<Rightarrow> bool" where
  "changes_consistent ls [] = True"
| "changes_consistent ls (change # changes) =
     ((case getImageLayer change of
         None \<Rightarrow> True
       | Some l \<Rightarrow> getAction change = ADD_LAYER \<longrightarrow> l \<notin> set ls)
      \<and> changes_consistent (layers_after_change ls change) changes)"

text \<open>
  The number of subscriptions of the controller \<open>c\<close> that the layer \<open>l\<close> holds after
  the calls \<open>evs\<close>.
\<close>

definition subscriptions :: "controller \<Rightarrow> event list \<Rightarrow> layer \<Rightarrow> nat" where
  "subscriptions c evs l = count (mset (layer_callbacks evs l)) (Some c)"

section \<open>Properties\<close>

subsection \<open>Basic facts\<close>

lemma calls_emit: "calls (emit e s) = calls s @ [e]"
  by (simp add: emit_def)

lemma remove1_append_fresh: "e \<notin> set xs \<Longrightarrow> remove1 e (xs @ [e]) = xs"
  by (simp add: remove1_append)

lemma length_std_remove_loop: "length (std_remove_loop buf w xs v) = length buf"
  by (induction buf w xs v rule: std_remove_loop.induct) simp_all

lemma length_std_remove: "length (std_remove xs v) = length xs"
  by (simp add: std_remove_def length_std_remove_loop)

lemma m_dirtyCount_requestRedraw: "m_dirtyCount (requestRedraw s) = m_dirtyCount s + 1"
  by (simp add: requestRedraw_def emit_def Let_def)

lemma calls_requestRedraw:
  "calls (requestRedraw s) = calls s @ (if m_dirtyCount s = 0 then [RequestRedraw] else [])"
  by (simp add: requestRedraw_def emit_def Let_def)

lemma m_dirtyCount_funpow:
  "m_dirtyCount ((requestRedraw ^^ n) s) = m_dirtyCount s + of_nat n"
  by (induction n) (simp_all add: m_dirtyCount_requestRedraw)

lemma of_nat_word_nonzero:
  assumes "0 < n" "n < 2 ^ LENGTH('w::len)"
  shows "(of_nat n :: 'w word) \<noteq> 0"
proof -
  have "\<not> 2 ^ LENGTH('w) dvd n"
    using assms by (auto dest: dvd_imp_le)
  then show ?thesis by (simp add: word_of_nat_eq_0_iff)
qed

lemma calls_requestRedraw_funpow:
  fixes s :: "'w::len engine"
  assumes "m_dirtyCount s = 0" "0 < n" "n \<le> 2 ^ LENGTH('w)"
  shows "calls ((requestRedraw ^^ n) s) = calls s @ [RequestRedraw]"
  using assms(2,3)
proof (induction n)
  case 0
  then show ?case by simp
next
  case (Suc n)
  show ?case
  proof (cases "n = 0")
    case True
    then show ?thesis using assms(1) by (simp add: calls_requestRedraw)
  next
    case False
    then have n: "0 < n" "n < 2 ^ LENGTH('w)" using Suc.prems by simp_all
    then have "m_dirtyCount ((requestRedraw ^^ n) s) \<noteq> 0"
      using assms(1) by (simp add: m_dirtyCount_funpow of_nat_word_nonzero)
    moreover have "calls ((requestRedraw ^^ n) s) = calls s @ [RequestRedraw]"
      using Suc.IH n by simp
    ultimately show ?thesis by (simp add: calls_requestRedraw)
  qed
qed

lemma traverse_event:
  "traverse EVENT_VISITOR s = Inr (emit (BaseTraverse EVENT_VISITOR) (s\<lparr>m_dirtyCount := 0\<rparr>))"
  by (simp add: traverse_def)

lemma setter_calls:
  "calls (dirtyTerrain s) = calls s @ (if m_dirtyCount s = 0 then [RequestRedraw] else [])"
  by (simp add: dirtyTerrain_def calls_requestRedraw)

text \<open>The loops only extend the log.\<close>

lemma addCallbacks_eq:
  "addCallbacks ls s = s\<lparr>calls := calls s @ map (\<lambda>l. AddCallback l (m_imageLayerController s)) ls\<rparr>"
  by (induction ls arbitrary: s) (simp_all add: emit_def)

lemma removeCallbacks_eq:
  "removeCallbacks ls s
     = s\<lparr>calls := calls s @ map (\<lambda>l. RemoveCallback l (m_imageLayerController s)) ls\<rparr>"
  by (induction ls arbitrary: s) (simp_all add: emit_def)

lemma setOffLimits_eq:
  "setOffLimits is s = s\<lparr>calls := calls s @ map SetTextureImageUnitOffLimits is\<rparr>"
  by (induction "is" arbitrary: s) (simp_all add: emit_def)

lemma fireCreateTileModelCallbacks_eq:
  "fireCreateTileModelCallbacks (map Some cbs) model s
     = Inr (s\<lparr>calls := calls s @ map (\<lambda>cb. OnCreateTileModel cb model) cbs\<rparr>)"
  by (induction cbs arbitrary: s) (simp_all add: emit_def)

lemma fireCreateTileModelCallbacks_frame:
  "fireCreateTileModelCallbacks cbs model s = Inr s' \<Longrightarrow> s' = s\<lparr>calls := calls s'\<rparr>"
proof (induction cbs model s rule: fireCreateTileModelCallbacks.induct)
  case (3 cb cbs model s)
  then have "s' = (emit (OnCreateTileModel cb model) s)\<lparr>calls := calls s'\<rparr>" by simp
  then show ?case by (simp add: emit_def)
qed simp_all

lemma notifyTileNodeCallbacks_frame:
  "notifyTileNodeCallbacks cbs key node s = Inr s' \<Longrightarrow> s' = s\<lparr>calls := calls s'\<rparr>"
proof (induction cbs key node s rule: notifyTileNodeCallbacks.induct)
  case (3 cb cbs key node s)
  then have "s' = (emit (TileNodeCallback cb key node) s)\<lparr>calls := calls s'\<rparr>" by simp
  then show ?case by (simp add: emit_def)
qed simp_all

lemma count_OnCreateTileModel:
  "count_list (map (\<lambda>c. OnCreateTileModel c model) cbs) (OnCreateTileModel cb model)
     = count_list cbs cb"
  by (induction cbs) auto

text \<open>What \<^verbatim>\<open>setMap\<close> and \<^verbatim>\<open>onMapModelChanged\<close> do, in one equation each.\<close>

lemma setMap_eq:
  assumes "map_profile_valid m"
  shows "setMap (Some m) opts offLimits ctrl s =
     Inr (s\<lparr>m_initStage := INIT_POSTINIT_COMPLETE, m_map := True, m_terrainInterface := True,
            m_textureResourceTracker := True, m_tileModelFactory := True,
            m_imageLayerController := Some ctrl,
            calls := (calls s
              @ (PopulateCoordinateSystemNode
                   # (if map_geocentric m then [] else [SetEllipsoidModelNull]))
              @ map SetTextureImageUnitOffLimits offLimits
              @ (AddMapCallback
                   # (case binNumber opts of None \<Rightarrow> [] | Some b \<Rightarrow> [SetRenderBinDetails b]))
              @ (PopulateCoordinateSystemNode
                   # (if map_geocentric m then [] else [SetEllipsoidModelNull])))
              @ map (\<lambda>l. AddCallback l (Some ctrl)) (map_image_layers m)\<rparr>)"
  using assms
  by (simp add: setMap_def onMapInfoEstablished_def Let_def emit_def addCallbacks_eq
      setOffLimits_eq split: option.splits)

lemma setMap_null_profile:
  "\<not> map_profile_valid m \<Longrightarrow> setMap (Some m) opts offLimits ctrl s = Inl NullDereference"
  by (simp add: setMap_def)

lemma onMapModelChanged_eq:
  assumes "m_terrainInterface s \<or> getElevationLayer change = None"
  shows "onMapModelChanged change s =
      Inr (requestRedraw (s\<lparr>calls := calls s
        @ (case getImageLayer change of
             None \<Rightarrow> []
           | Some l \<Rightarrow>
               if getAction change = ADD_LAYER then [AddCallback l (m_imageLayerController s)]
               else if getAction change = REMOVE_LAYER
               then [RemoveCallback l (m_imageLayerController s)]
               else [])
        @ (case getElevationLayer change of
             None \<Rightarrow> []
           | Some l \<Rightarrow> [NotifyMapElevationChanged])\<rparr>))"
  using assms
  by (auto simp: onMapModelChanged_def emit_def Let_def split: option.splits)

text \<open>No operation clears a requirement flag.\<close>

lemma requirements_of_calls [simp]: "requirements_of (s\<lparr>calls := c\<rparr>) = requirements_of s"
  by (simp add: requirements_of_def)

lemma setMap_requirements:
  "setMap m opts offLimits ctrl s = Inr s' \<Longrightarrow> requirements_of s' = requirements_of s"
  by (auto simp: setMap_def onMapInfoEstablished_def Let_def emit_def addCallbacks_eq
      setOffLimits_eq requirements_of_def split: option.splits if_splits)

lemma createTileModel_requirements:
  "createTileModel factory frame key flt progress s = Inr (s', r)
     \<Longrightarrow> requirements_of s' = requirements_of s"
  by (auto simp: createTileModel_def split: if_splits option.splits sum.splits
      dest!: fireCreateTileModelCallbacks_frame) (metis requirements_of_calls)

lemma apply_op_requirements:
  assumes "apply_op c s = Inr s'"
  shows "(m_requireNormalTextures s \<longrightarrow> m_requireNormalTextures s')
    \<and> (m_requireElevationTextures s \<longrightarrow> m_requireElevationTextures s')
    \<and> (m_requireParentTextures s \<longrightarrow> m_requireParentTextures s')"
proof (cases c)
  case (Op_setMap m opts offLimits ctrl)
  then have "requirements_of s' = requirements_of s"
    using assms by (simp add: setMap_requirements)
  then show ?thesis by (simp add: requirements_of_def)
next
  case (Op_createTileModel r)
  then obtain model where
    "createTileModel (\<lambda>frame key filter' reqs progress. r) () () () () s = Inr (s', model)"
    using assms by (auto split: sum.splits)
  then have "requirements_of s' = requirements_of s"
    by (rule createTileModel_requirements)
  then show ?thesis by (simp add: requirements_of_def)
next
  case (Op_notifyOfTerrainTileNodeCreation key node)
  then have "s' = s\<lparr>calls := calls s'\<rparr>"
    using assms by (simp add: notifyOfTerrainTileNodeCreation_def notifyTileNodeCallbacks_frame)
  then show ?thesis by (metis requirements_of_calls requirements_of_def requirements.select_convs)
qed (use assms in \<open>auto simp: addEffect_def removeEffect_def dirtyState_def emit_def
      requireNormalTextures_def requireElevationTextures_def requireParentTextures_def
      dirtyTerrain_def requestRedraw_def Let_def setVerticalScale_def
      onMapInfoEstablished_def onMapModelChanged_def addCreateTileModelCallback_def
      removeCreateTileModelCallback_def traverse_def addTilePatchCallback_def
      removeTilePatchCallback_def setComputeRangeCallback_def onColorFiltersChanged_def
      split: option.splits if_splits\<close>)

lemma run_requirements:
  "run ops s = Inr s' \<Longrightarrow>
     (m_requireNormalTextures s \<longrightarrow> m_requireNormalTextures s')
   \<and> (m_requireElevationTextures s \<longrightarrow> m_requireElevationTextures s')
   \<and> (m_requireParentTextures s \<longrightarrow> m_requireParentTextures s')"
proof (induction ops arbitrary: s)
  case Nil
  then show ?case by simp
next
  case (Cons c ops)
  then obtain s1 where s1: "apply_op c s = Inr s1" "run ops s1 = Inr s'"
    by (auto split: sum.splits)
  show ?case using apply_op_requirements [OF s1(1)] Cons.IH [OF s1(2)] by blast
qed

text \<open>Counting the subscriptions of a controller in the log.\<close>

lemma subscriptions_snoc:
  "subscriptions c (evs @ [e]) l =
     (case e of
        AddCallback l' c' \<Rightarrow>
          if l' = l \<and> c' = Some c then Suc (subscriptions c evs l) else subscriptions c evs l
      | RemoveCallback l' c' \<Rightarrow>
          if l' = l \<and> c' = Some c then subscriptions c evs l - 1 else subscriptions c evs l
      | _ \<Rightarrow> subscriptions c evs l)"
  by (cases e) (auto simp: subscriptions_def layer_callbacks_def)

lemma subscriptions_other:
  assumes "\<And>l' c'. AddCallback l' c' \<notin> set evs'" "\<And>l' c'. RemoveCallback l' c' \<notin> set evs'"
  shows "subscriptions c (evs @ evs') l = subscriptions c evs l"
  using assms
proof (induction evs' rule: rev_induct)
  case Nil
  then show ?case by simp
next
  case (snoc e evs')
  have "subscriptions c ((evs @ evs') @ [e]) l = subscriptions c (evs @ evs') l"
    using snoc.prems subscriptions_snoc [of c "evs @ evs'" e l] by (cases e) auto
  then show ?case using snoc by simp
qed

lemma subscriptions_add:
  "subscriptions c (evs @ map (\<lambda>l. AddCallback l (Some c)) ls) l
     = subscriptions c evs l + count (mset ls) l"
proof (induction ls rule: rev_induct)
  case Nil
  then show ?case by simp
next
  case (snoc x ls)
  have "subscriptions c ((evs @ map (\<lambda>l. AddCallback l (Some c)) ls) @ [AddCallback x (Some c)]) l
      = subscriptions c (evs @ map (\<lambda>l. AddCallback l (Some c)) ls) l + (if x = l then 1 else 0)"
    using subscriptions_snoc [of c "evs @ map (\<lambda>l. AddCallback l (Some c)) ls"
        "AddCallback x (Some c)" l] by simp
  then show ?case using snoc by simp
qed

lemma subscriptions_remove:
  "subscriptions c (evs @ map (\<lambda>l. RemoveCallback l (Some c)) ls) l
     = subscriptions c evs l - count (mset ls) l"
proof (induction ls rule: rev_induct)
  case Nil
  then show ?case by simp
next
  case (snoc x ls)
  have "subscriptions c ((evs @ map (\<lambda>l. RemoveCallback l (Some c)) ls) @ [RemoveCallback x (Some c)]) l
      = subscriptions c (evs @ map (\<lambda>l. RemoveCallback l (Some c)) ls) l - (if x = l then 1 else 0)"
    using subscriptions_snoc [of c "evs @ map (\<lambda>l. RemoveCallback l (Some c)) ls"
        "RemoveCallback x (Some c)" l] by simp
  then show ?case using snoc by simp
qed

lemma setMap_subscriptions:
  assumes "setMap (Some m) opts offLimits ctrl s0 = Inr s"
  shows "m_map s \<and> m_terrainInterface s \<and> m_imageLayerController s = Some ctrl
    \<and> (\<forall>l. subscriptions ctrl (calls s) l
             = subscriptions ctrl (calls s0) l + count (mset (map_image_layers m)) l)"
proof -
  have v: "map_profile_valid m"
    using assms setMap_null_profile [of m opts offLimits ctrl s0] by auto
  note eq = setMap_eq [OF v, of opts offLimits ctrl s0]
  have s: "s = projr (setMap (Some m) opts offLimits ctrl s0)" using assms by simp
  define pre where "pre =
      (PopulateCoordinateSystemNode # (if map_geocentric m then [] else [SetEllipsoidModelNull]))
      @ map SetTextureImageUnitOffLimits offLimits
      @ (AddMapCallback
           # (case binNumber opts of None \<Rightarrow> [] | Some b \<Rightarrow> [SetRenderBinDetails b]))
      @ (PopulateCoordinateSystemNode
           # (if map_geocentric m then [] else [SetEllipsoidModelNull]))"
  have c: "calls s = (calls s0 @ pre) @ map (\<lambda>l. AddCallback l (Some ctrl)) (map_image_layers m)"
    unfolding s eq pre_def by simp
  have pre: "AddCallback l' c' \<notin> set pre" "RemoveCallback l' c' \<notin> set pre" for l' c'
    unfolding pre_def by (auto split: option.splits)
  have "subscriptions ctrl (calls s) l
             = subscriptions ctrl (calls s0) l + count (mset (map_image_layers m)) l" for l
    unfolding c subscriptions_add using subscriptions_other [of pre ctrl "calls s0" l] pre
    by simp
  moreover have "m_map s \<and> m_terrainInterface s \<and> m_imageLayerController s = Some ctrl"
    unfolding s eq by simp
  ultimately show ?thesis by blast
qed

lemma onMapModelChanged_subscriptions:
  assumes "m_map s" "m_terrainInterface s" "m_imageLayerController s = Some ctrl"
    and "\<forall>l. subscriptions ctrl (calls s) l = count (mset ls) l"
  shows "\<exists>t. onMapModelChanged change s = Inr t
    \<and> m_map t \<and> m_terrainInterface t \<and> m_imageLayerController t = Some ctrl
    \<and> (\<forall>l. subscriptions ctrl (calls t) l = count (mset (layers_after_change ls change)) l)"
proof -
  define img where "img =
     (case getImageLayer change of
        None \<Rightarrow> []
      | Some l \<Rightarrow>
          if getAction change = ADD_LAYER then [AddCallback l (Some ctrl)]
          else if getAction change = REMOVE_LAYER then [RemoveCallback l (Some ctrl)]
          else [])"
  define rest where "rest =
     (case getElevationLayer change of None \<Rightarrow> [] | Some l \<Rightarrow> [NotifyMapElevationChanged])
     @ (if m_dirtyCount s = 0 then [RequestRedraw] else [])"
  define t where "t = projr (onMapModelChanged change s)"
  have eq: "onMapModelChanged change s = Inr t"
    unfolding t_def using onMapModelChanged_eq [of s change] assms(2) by simp
  have t: "t = requestRedraw (s\<lparr>calls := calls s @ img
       @ (case getElevationLayer change of None \<Rightarrow> [] | Some l \<Rightarrow> [NotifyMapElevationChanged])\<rparr>)"
    using eq unfolding onMapModelChanged_eq [OF disjI1 [OF assms(2)]] assms(3) img_def by simp
  have c: "calls t = ((calls s @ img) @ rest)"
    unfolding t rest_def by (simp add: requestRedraw_def emit_def Let_def)
  have f: "m_map t \<and> m_terrainInterface t \<and> m_imageLayerController t = Some ctrl"
    unfolding t using assms(1-3) by (simp add: requestRedraw_def emit_def Let_def)
  have rest: "AddCallback l' c' \<notin> set rest" "RemoveCallback l' c' \<notin> set rest" for l' c'
    unfolding rest_def by (auto split: option.splits)
  have 1: "subscriptions ctrl (calls t) l = subscriptions ctrl (calls s @ img) l" for l
    unfolding c using subscriptions_other [of rest ctrl "calls s @ img" l] rest by simp
  have 2: "subscriptions ctrl (calls s @ img) l = count (mset (layers_after_change ls change)) l"
    for l
    using assms(4) subscriptions_snoc [of ctrl "calls s" _ l]
    by (auto simp: img_def split: option.splits)
  show ?thesis using eq f 1 2 by simp
qed

lemma run_changes_subscriptions:
  assumes "m_map s" "m_terrainInterface s" "m_imageLayerController s = Some ctrl"
    and "\<forall>l. subscriptions ctrl (calls s) l = count (mset ls) l"
  shows "\<exists>t. run (map Op_onMapModelChanged changes) s = Inr t
    \<and> m_map t \<and> m_terrainInterface t \<and> m_imageLayerController t = Some ctrl
    \<and> (\<forall>l. subscriptions ctrl (calls t) l = count (mset (layers_after ls changes)) l)"
  using assms
proof (induction changes arbitrary: s ls)
  case Nil
  then show ?case by (simp add: layers_after_def)
next
  case (Cons change changes)
  obtain s1 where s1: "onMapModelChanged change s = Inr s1"
    "m_map s1" "m_terrainInterface s1" "m_imageLayerController s1 = Some ctrl"
    "\<forall>l. subscriptions ctrl (calls s1) l = count (mset (layers_after_change ls change)) l"
    using onMapModelChanged_subscriptions [OF Cons.prems, of change] by blast
  obtain t where t: "run (map Op_onMapModelChanged changes) s1 = Inr t"
    "m_map t" "m_terrainInterface t" "m_imageLayerController t = Some ctrl"
    "\<forall>l. subscriptions ctrl (calls t) l
       = count (mset (layers_after (layers_after_change ls change) changes)) l"
    using Cons.IH [OF s1(2-5)] by blast
  have "run (map Op_onMapModelChanged (change # changes)) s = Inr t"
    using s1(1) t(1) by simp
  moreover have "layers_after ls (change # changes)
      = layers_after (layers_after_change ls change) changes"
    by (simp add: layers_after_def)
  ultimately show ?case using t by simp
qed

lemma destructor_subscriptions:
  assumes "m_map s" "m_imageLayerController s = Some ctrl"
  shows "subscriptions ctrl (destructor ls s) l = subscriptions ctrl (calls s) l - count (mset ls) l"
  using assms by (simp add: destructor_def removeCallbacks_eq subscriptions_remove)

lemma destructor_eq:
  assumes "m_map s"
  shows "destructor ls s
     = calls s @ map (\<lambda>l. RemoveCallback l (m_imageLayerController s)) ls"
  using assms by (simp add: destructor_def removeCallbacks_eq)

lemma distinct_layers_after:
  "distinct ls \<Longrightarrow> changes_consistent ls changes \<Longrightarrow> distinct (layers_after ls changes)"
proof (induction changes arbitrary: ls)
  case Nil
  then show ?case by (simp add: layers_after_def)
next
  case (Cons change changes)
  have "distinct (layers_after_change ls change)"
    using Cons.prems by (auto split: option.splits)
  moreover have "changes_consistent (layers_after_change ls change) changes"
    using Cons.prems by simp
  moreover have "layers_after ls (change # changes)
      = layers_after (layers_after_change ls change) changes"
    by (simp add: layers_after_def)
  ultimately show ?case using Cons.IH by simp
qed

subsection \<open>Tile model construction\<close>

text \<open>
  Claim C1.  On a node whose tile model factory exists, for every map frame, tile key,
  filter and progress handle: when the factory returns null, \<^verbatim>\<open>createTileModel\<close> returns
  null and calls nothing, the node being as before; when the factory returns a model and
  the registry holds the callbacks \<open>cbs\<close>, it calls \<^verbatim>\<open>onCreateTileModel\<close> of each of
  them with that model, one call for each registration and in the order of registration,
  calls nothing else, and returns that model.
\<close>

theorem createTileModel_fires_callbacks:
  fixes s :: "'w::len engine"
  assumes "m_tileModelFactory s"
  shows "(factory frame key flt (requirements_of s) progress = None \<longrightarrow>
            createTileModel factory frame key flt progress s = Inr (s, None))
    \<and> (\<forall>model cbs.
          factory frame key flt (requirements_of s) progress = Some model
          \<and> m_createTileModelCallbacks s = map Some cbs \<longrightarrow>
            createTileModel factory frame key flt progress s
              = Inr (s\<lparr>calls := calls s @ map (\<lambda>cb. OnCreateTileModel cb model) cbs\<rparr>, Some model)
          \<and> (\<forall>cb. count_list (map (\<lambda>c. OnCreateTileModel c model) cbs)
                       (OnCreateTileModel cb model) = count_list cbs cb))"
  using assms
  by (simp add: createTileModel_def fireCreateTileModelCallbacks_eq count_OnCreateTileModel)

text \<open>
  The theorem on the node that \<^verbatim>\<open>setMap\<close> has set up and on which the callbacks 7 and 8
  have been registered, for a factory that returns the model 42 and for one that
  returns null.
\<close>

theorem createTileModel_fires_callbacks_witness:
  "m_tileModelFactory
     (addCreateTileModelCallback (Some 8) (addCreateTileModelCallback (Some 7)
        (projr (setMap (Some \<lparr>map_profile_valid = True, map_geocentric = True,
                              map_image_layers = []\<rparr>)
                  \<lparr>binNumber = None\<rparr> [] 10 (TerrainEngineNode :: 32 engine)))))
   \<and> map_sum id (\<lambda>(t, r). (drop 5 (calls t), r))
        (createTileModel (\<lambda>frame key filter' reqs progress. Some 42) () () () ()
           (addCreateTileModelCallback (Some 8) (addCreateTileModelCallback (Some 7)
              (projr (setMap (Some \<lparr>map_profile_valid = True, map_geocentric = True,
                                    map_image_layers = []\<rparr>)
                        \<lparr>binNumber = None\<rparr> [] 10 (TerrainEngineNode :: 32 engine))))))
       = Inr ([OnCreateTileModel 7 42, OnCreateTileModel 8 42], Some 42)
   \<and> map_sum id (\<lambda>(t, r). (drop 5 (calls t), r))
        (createTileModel (\<lambda>frame key filter' reqs progress. None) () () () ()
           (addCreateTileModelCallback (Some 8) (addCreateTileModelCallback (Some 7)
              (projr (setMap (Some \<lparr>map_profile_valid = True, map_geocentric = True,
                                    map_image_layers = []\<rparr>)
                        \<lparr>binNumber = None\<rparr> [] 10 (TerrainEngineNode :: 32 engine))))))
       = Inr ([], None)"
proof -
  let ?s = "addCreateTileModelCallback (Some 8) (addCreateTileModelCallback (Some 7)
        (projr (setMap (Some \<lparr>map_profile_valid = True, map_geocentric = True,
                              map_image_layers = []\<rparr>)
                  \<lparr>binNumber = None\<rparr> [] 10 (TerrainEngineNode :: 32 engine))))"
  have h: "m_tileModelFactory ?s"
    by (simp add: setMap_eq addCreateTileModelCallback_def)
  have cbs: "m_createTileModelCallbacks ?s = map Some [7, 8]"
    by (simp add: setMap_eq addCreateTileModelCallback_def TerrainEngineNode_def)
  have c: "calls ?s = [AdjustEventTravCount 1, AdjustUpdateTravCount 1,
      PopulateCoordinateSystemNode, AddMapCallback, PopulateCoordinateSystemNode]"
    by (simp add: setMap_eq addCreateTileModelCallback_def TerrainEngineNode_def)
  have 1: "createTileModel (\<lambda>frame key filter' reqs progress. Some 42) () () () () ?s
      = Inr (?s\<lparr>calls := calls ?s @ map (\<lambda>cb. OnCreateTileModel cb 42) [7, 8]\<rparr>, Some 42)"
    using createTileModel_fires_callbacks
      [OF h, of "\<lambda>frame key filter' reqs progress. Some 42" "()" "()" "()" "()"] cbs
    by blast
  have 2: "createTileModel (\<lambda>frame key filter' reqs progress. None) () () () () ?s
      = Inr (?s, None)"
    using createTileModel_fires_callbacks
      [OF h, of "\<lambda>frame key filter' reqs progress. None" "()" "()" "()" "()"]
    by blast
  show ?thesis unfolding 1 2 using h c by simp
qed

subsection \<open>Map changes\<close>

text \<open>
  Claim C2.  On a node that has its terrain interface (or for a change without an
  elevation layer), \<^verbatim>\<open>onMapModelChanged\<close> succeeds for every change and always calls
  \<^verbatim>\<open>requestRedraw()\<close> last: the dirty counter is incremented, and the views are notified
  when it was zero.  Before that, and independently of each other: an \<^verbatim>\<open>ADD_LAYER\<close>
  change with an image layer subscribes the image layer controller to that layer, a
  \<^verbatim>\<open>REMOVE_LAYER\<close> change with an image layer unsubscribes it, any other change does
  neither; and a change with an elevation layer, whatever its action and its image
  layer, notifies the terrain that the elevation changed.
\<close>

theorem onMapModelChanged_branches:
  fixes s :: "'w::len engine"
  assumes "m_terrainInterface s \<or> getElevationLayer change = None"
  shows "\<exists>t. onMapModelChanged change s = Inr t
    \<and> m_dirtyCount t = m_dirtyCount s + 1
    \<and> calls t = calls s
        @ (case getImageLayer change of
             None \<Rightarrow> []
           | Some l \<Rightarrow>
               if getAction change = ADD_LAYER then [AddCallback l (m_imageLayerController s)]
               else if getAction change = REMOVE_LAYER
               then [RemoveCallback l (m_imageLayerController s)]
               else [])
        @ (case getElevationLayer change of
             None \<Rightarrow> []
           | Some l \<Rightarrow> [NotifyMapElevationChanged])
        @ (if m_dirtyCount s = 0 then [RequestRedraw] else [])
    \<and> t\<lparr>calls := calls s, m_dirtyCount := m_dirtyCount s\<rparr> = s"
  unfolding onMapModelChanged_eq [OF assms]
  by (simp add: requestRedraw_def emit_def Let_def)

text \<open>
  The theorem for the addition of the elevation layer 5, on the node that \<^verbatim>\<open>setMap\<close> has
  set up: no image branch, the elevation notification, the redraw.
\<close>

theorem onMapModelChanged_branches_witness:
  "m_terrainInterface
     (projr (setMap (Some \<lparr>map_profile_valid = True, map_geocentric = True,
                           map_image_layers = [1]\<rparr>)
               \<lparr>binNumber = None\<rparr> [] 10 (TerrainEngineNode :: 32 engine)))
   \<and> map_sum id (\<lambda>t. (drop 6 (calls t), m_dirtyCount t))
        (onMapModelChanged
           \<lparr>getAction = ADD_LAYER, getImageLayer = None, getElevationLayer = Some 5\<rparr>
           (projr (setMap (Some \<lparr>map_profile_valid = True, map_geocentric = True,
                                 map_image_layers = [1]\<rparr>)
                     \<lparr>binNumber = None\<rparr> [] 10 (TerrainEngineNode :: 32 engine))))
       = Inr ([NotifyMapElevationChanged, RequestRedraw], 1)"
proof -
  let ?s = "projr (setMap (Some \<lparr>map_profile_valid = True, map_geocentric = True,
                           map_image_layers = [1]\<rparr>)
               \<lparr>binNumber = None\<rparr> [] 10 (TerrainEngineNode :: 32 engine))"
  let ?c = "\<lparr>getAction = ADD_LAYER, getImageLayer = None, getElevationLayer = Some 5\<rparr>"
  have h: "m_terrainInterface ?s" by (simp add: setMap_eq)
  have c: "calls ?s = [AdjustEventTravCount 1, AdjustUpdateTravCount 1,
      PopulateCoordinateSystemNode, AddMapCallback, PopulateCoordinateSystemNode,
      AddCallback 1 (Some 10)]"
    by (simp add: setMap_eq TerrainEngineNode_def)
  have z: "m_dirtyCount ?s = 0" by (simp add: setMap_eq TerrainEngineNode_def)
  obtain t where t: "onMapModelChanged ?c ?s = Inr t" "m_dirtyCount t = m_dirtyCount ?s + 1"
    "calls t = calls ?s @ [NotifyMapElevationChanged] @ [RequestRedraw]"
    using onMapModelChanged_branches [OF disjI1 [OF h], of ?c] z by auto
  show ?thesis unfolding t(1) using h t(2,3) c z by simp
qed

text \<open>
  Claim C3, as the code has it.  Let \<^verbatim>\<open>setMap\<close> succeed on a map that holds no image
  layer twice, with a controller that no layer was subscribed with before.  After every
  sequence of changes applied through \<^verbatim>\<open>onMapModelChanged\<close> in which no \<^verbatim>\<open>ADD_LAYER\<close>
  carries an image layer that the map already holds, the layers with a subscription of
  the controller are exactly the image layers in the map, and each of them holds exactly
  one.  The destructor calls \<^verbatim>\<open>removeCallback\<close> with the controller once for each image
  layer in the map and nothing else, which leaves no subscription behind.
\<close>

theorem image_layer_subscriptions:
  fixes s0 :: "'w::len engine"
  assumes fresh: "\<forall>l. subscriptions ctrl (calls s0) l = 0"
    and init: "setMap (Some m) opts offLimits ctrl s0 = Inr s"
    and dist: "distinct (map_image_layers m)"
    and cons: "changes_consistent (map_image_layers m) changes"
  shows "\<exists>t. run (map Op_onMapModelChanged changes) s = Inr t
    \<and> (\<forall>l. subscriptions ctrl (calls t) l
            = (if l \<in> set (layers_after (map_image_layers m) changes) then 1 else 0))
    \<and> {l. 0 < subscriptions ctrl (calls t) l} = set (layers_after (map_image_layers m) changes)
    \<and> distinct (layers_after (map_image_layers m) changes)
    \<and> destructor (layers_after (map_image_layers m) changes) t
        = calls t @ map (\<lambda>l. RemoveCallback l (Some ctrl))
                      (layers_after (map_image_layers m) changes)
    \<and> (\<forall>l. subscriptions ctrl (destructor (layers_after (map_image_layers m) changes) t) l = 0)"
proof -
  let ?ls = "layers_after (map_image_layers m) changes"
  have s: "m_map s" "m_terrainInterface s" "m_imageLayerController s = Some ctrl"
    "\<forall>l. subscriptions ctrl (calls s) l = count (mset (map_image_layers m)) l"
    using setMap_subscriptions [OF init] fresh by simp_all
  obtain t where t: "run (map Op_onMapModelChanged changes) s = Inr t"
    "m_map t" "m_imageLayerController t = Some ctrl"
    "\<forall>l. subscriptions ctrl (calls t) l = count (mset ?ls) l"
    using run_changes_subscriptions [OF s, of changes] by blast
  have d: "distinct ?ls"
    using dist cons by (rule distinct_layers_after)
  have 1: "\<forall>l. subscriptions ctrl (calls t) l = (if l \<in> set ?ls then 1 else 0)"
    using t(4) d by (simp add: distinct_count_atmost_1)
  have 2: "{l. 0 < subscriptions ctrl (calls t) l} = set ?ls"
    using 1 by auto
  have 3: "destructor ?ls t = calls t @ map (\<lambda>l. RemoveCallback l (Some ctrl)) ?ls"
    using destructor_eq [OF t(2), of ?ls] t(3) by simp
  have 4: "\<forall>l. subscriptions ctrl (destructor ?ls t) l = 0"
    using t(4) by (simp add: destructor_subscriptions [OF t(2,3)])
  show ?thesis using t(1) 1 2 d 3 4 by blast
qed

text \<open>
  The theorem for a map with the image layers 1 and 2, to which the layer 3 is added and
  from which the layer 1 is removed: the layers 2 and 3 hold one subscription and the
  layer 1 none; the destructor unsubscribes the layers 2 and 3, and then none holds one.
\<close>

theorem image_layer_subscriptions_witness:
  "distinct (map_image_layers
      \<lparr>map_profile_valid = True, map_geocentric = True, map_image_layers = [1, 2]\<rparr>)
   \<and> changes_consistent [1, 2]
        [\<lparr>getAction = ADD_LAYER, getImageLayer = Some 3, getElevationLayer = None\<rparr>,
         \<lparr>getAction = REMOVE_LAYER, getImageLayer = Some 1, getElevationLayer = None\<rparr>]
   \<and> map_sum id (\<lambda>t. (map (subscriptions 10 (calls t)) [1, 2, 3],
                        drop (length (calls t)) (destructor [2, 3] t),
                        map (subscriptions 10 (destructor [2, 3] t)) [1, 2, 3]))
     (run (map Op_onMapModelChanged
        [\<lparr>getAction = ADD_LAYER, getImageLayer = Some 3, getElevationLayer = None\<rparr>,
         \<lparr>getAction = REMOVE_LAYER, getImageLayer = Some 1, getElevationLayer = None\<rparr>])
        (projr (setMap (Some \<lparr>map_profile_valid = True, map_geocentric = True,
                              map_image_layers = [1, 2]\<rparr>)
                  \<lparr>binNumber = None\<rparr> [] 10 (TerrainEngineNode :: 32 engine))))
   = Inr ([0, 1, 1], [RemoveCallback 2 (Some 10), RemoveCallback 3 (Some 10)], [0, 0, 0])"
proof -
  let ?m = "\<lparr>map_profile_valid = True, map_geocentric = True, map_image_layers = [1, 2]\<rparr>"
  let ?T = "TerrainEngineNode :: 32 engine"
  let ?changes = "[\<lparr>getAction = ADD_LAYER, getImageLayer = Some 3, getElevationLayer = None\<rparr>,
         \<lparr>getAction = REMOVE_LAYER, getImageLayer = Some 1, getElevationLayer = None\<rparr>]"
  let ?s = "projr (setMap (Some ?m) \<lparr>binNumber = None\<rparr> [] 10 ?T)"
  have fresh: "\<forall>l. subscriptions 10 (calls ?T) l = 0"
    by (simp add: subscriptions_def layer_callbacks_def TerrainEngineNode_def)
  have init: "setMap (Some ?m) \<lparr>binNumber = None\<rparr> [] 10 ?T = Inr ?s"
    by (simp add: setMap_eq)
  have dist: "distinct (map_image_layers ?m)" by simp
  have cons: "changes_consistent (map_image_layers ?m) ?changes" by simp
  have ls: "layers_after (map_image_layers ?m) ?changes = [2, 3]"
    by (simp add: layers_after_def)
  obtain t where t: "run (map Op_onMapModelChanged ?changes) ?s = Inr t"
    "\<forall>l. subscriptions 10 (calls t) l = (if l \<in> set [2, 3] then 1 else 0)"
    "destructor [2, 3] t = calls t @ map (\<lambda>l. RemoveCallback l (Some 10)) [2, 3]"
    "\<forall>l. subscriptions 10 (destructor [2, 3] t) l = 0"
    using image_layer_subscriptions [OF fresh init dist cons] unfolding ls by blast
  have c: "changes_consistent [1, 2] ?changes" by simp
  show ?thesis unfolding t(1) using t(2) t(3) t(4) c by simp
qed

text \<open>
  Claim C3 as stated, for every sequence of changes, fails when a layer is added twice:
  after two \<^verbatim>\<open>ADD_LAYER\<close> changes with the image layer 1 on an empty map, the layer 1 is
  in the map and holds two subscriptions of the controller.
\<close>

theorem image_layer_double_add_counterexample:
  "map_sum id (\<lambda>t. subscriptions 10 (calls t) 1)
     (run (map Op_onMapModelChanged
        [\<lparr>getAction = ADD_LAYER, getImageLayer = Some 1, getElevationLayer = None\<rparr>,
         \<lparr>getAction = ADD_LAYER, getImageLayer = Some 1, getElevationLayer = None\<rparr>])
        (projr (setMap (Some \<lparr>map_profile_valid = True, map_geocentric = True,
                              map_image_layers = []\<rparr>)
                  \<lparr>binNumber = None\<rparr> [] 10 (TerrainEngineNode :: 32 engine))))
   = Inr 2
   \<and> 1 \<in> set (layers_after []
        [\<lparr>getAction = ADD_LAYER, getImageLayer = Some 1, getElevationLayer = None\<rparr>,
         \<lparr>getAction = ADD_LAYER, getImageLayer = Some 1, getElevationLayer = None\<rparr>])"
proof -
  let ?m = "\<lparr>map_profile_valid = True, map_geocentric = True, map_image_layers = []\<rparr>"
  let ?T = "TerrainEngineNode :: 32 engine"
  let ?changes = "[\<lparr>getAction = ADD_LAYER, getImageLayer = Some 1, getElevationLayer = None\<rparr>,
         \<lparr>getAction = ADD_LAYER, getImageLayer = Some 1, getElevationLayer = None\<rparr>]"
  let ?s = "projr (setMap (Some ?m) \<lparr>binNumber = None\<rparr> [] 10 ?T)"
  have init: "setMap (Some ?m) \<lparr>binNumber = None\<rparr> [] 10 ?T = Inr ?s"
    by (simp add: setMap_eq)
  have s: "m_map ?s" "m_terrainInterface ?s" "m_imageLayerController ?s = Some 10"
    "\<forall>l. subscriptions 10 (calls ?s) l = count (mset []) l"
    using setMap_subscriptions [OF init]
    by (simp_all add: subscriptions_def layer_callbacks_def TerrainEngineNode_def)
  have ls: "layers_after [] ?changes = [1, 1]"
    by (simp add: layers_after_def)
  obtain t where t: "run (map Op_onMapModelChanged ?changes) ?s = Inr t"
    "\<forall>l. subscriptions 10 (calls t) l = count (mset [1, 1]) l"
    using run_changes_subscriptions [OF s, of ?changes] unfolding ls by blast
  show ?thesis unfolding t(1) ls using t(2) by simp
qed

subsection \<open>Redraw requests\<close>

text \<open>
  Claim C4, as the code has it.  Let \<open>w\<close> be the width of the dirty counter.  For every
  \<open>N\<close> with \<open>1 < N \<le> 2 ^ w\<close>, \<open>N\<close> calls of \<^verbatim>\<open>requestRedraw\<close> from a counter at 0, with no
  event traversal in between, notify the views exactly once; the event traversal then
  resets the counter to 0, and the next call of \<^verbatim>\<open>requestRedraw\<close> notifies the views
  exactly once more.
\<close>

theorem requestRedraw_coalesces:
  fixes s :: "'w::len engine"
  assumes "m_dirtyCount s = 0" and "1 < N" and "N \<le> 2 ^ LENGTH('w)"
  shows "calls ((requestRedraw ^^ N) s) = calls s @ [RequestRedraw]
    \<and> redraw_signals ((requestRedraw ^^ N) s) = redraw_signals s + 1
    \<and> (\<exists>t. traverse EVENT_VISITOR ((requestRedraw ^^ N) s) = Inr t
          \<and> m_dirtyCount t = 0
          \<and> redraw_signals t = redraw_signals s + 1
          \<and> calls (requestRedraw t) = calls t @ [RequestRedraw]
          \<and> redraw_signals (requestRedraw t) = redraw_signals s + 2)"
proof -
  have c: "calls ((requestRedraw ^^ N) s) = calls s @ [RequestRedraw]"
    using assms by (simp add: calls_requestRedraw_funpow)
  then have r: "redraw_signals ((requestRedraw ^^ N) s) = redraw_signals s + 1"
    by (simp add: redraw_signals_def)
  define t where "t = emit (BaseTraverse EVENT_VISITOR) (((requestRedraw ^^ N) s)\<lparr>m_dirtyCount := 0\<rparr>)"
  have t1: "traverse EVENT_VISITOR ((requestRedraw ^^ N) s) = Inr t"
    by (simp add: t_def traverse_event)
  have t2: "m_dirtyCount t = 0" by (simp add: t_def emit_def)
  have t3: "redraw_signals t = redraw_signals s + 1"
    using c by (simp add: t_def emit_def redraw_signals_def)
  have t4: "calls (requestRedraw t) = calls t @ [RequestRedraw]"
    using t2 by (simp add: calls_requestRedraw)
  have t5: "redraw_signals (requestRedraw t) = redraw_signals s + 2"
    using t3 t4 by (simp add: redraw_signals_def)
  show ?thesis using c r t1 t2 t3 t4 t5 by blast
qed

text \<open>The theorem for three calls on the freshly constructed node with a 32-bit counter.\<close>

theorem requestRedraw_coalesces_witness:
  "m_dirtyCount (TerrainEngineNode :: 32 engine) = 0 \<and> (1::nat) < 3 \<and> (3::nat) \<le> 2 ^ LENGTH(32)
   \<and> redraw_signals ((requestRedraw ^^ 3) (TerrainEngineNode :: 32 engine)) = 1"
proof -
  have h1: "m_dirtyCount (TerrainEngineNode :: 32 engine) = 0"
    by (simp add: TerrainEngineNode_def)
  have h2: "(1::nat) < 3" by simp
  have h3: "(3::nat) \<le> 2 ^ LENGTH(32)" by simp
  have "redraw_signals (TerrainEngineNode :: 32 engine) = 0"
    by (simp add: redraw_signals_def TerrainEngineNode_def)
  then show ?thesis
    using requestRedraw_coalesces [OF h1 h2 h3] h1 h2 h3 by simp
qed

text \<open>
  Claim C4 as stated, for every \<open>N\<close>, fails once the counter wraps around: with a 32-bit
  counter, \<open>2 ^ 32 + 1\<close> calls without an event traversal notify the views twice.
\<close>

theorem requestRedraw_wraps_counterexample:
  "m_dirtyCount (TerrainEngineNode :: 32 engine) = 0
   \<and> redraw_signals ((requestRedraw ^^ 4294967297) (TerrainEngineNode :: 32 engine))
       = redraw_signals (TerrainEngineNode :: 32 engine) + 2"
proof -
  let ?s = "TerrainEngineNode :: 32 engine"
  let ?t = "(requestRedraw ^^ 4294967296) ?s"
  have z: "m_dirtyCount ?s = 0" by (simp add: TerrainEngineNode_def)
  have c: "calls ?t = calls ?s @ [RequestRedraw]"
    by (rule calls_requestRedraw_funpow [OF z]) simp_all
  have "m_dirtyCount ?t = of_nat 4294967296"
    by (simp only: m_dirtyCount_funpow z add_0_left)
  then have d: "m_dirtyCount ?t = 0" by simp
  have n: "(4294967297::nat) = Suc 4294967296" by simp
  have "(requestRedraw ^^ 4294967297) ?s = requestRedraw ?t"
    unfolding n by (simp only: funpow.simps o_apply)
  then show ?thesis
    using c d z by (simp add: redraw_signals_def calls_requestRedraw)
qed

subsection \<open>Requirement flags\<close>

text \<open>
  Claim C5.  After \<^verbatim>\<open>requireNormalTextures\<close>, \<^verbatim>\<open>requireElevationTextures\<close> or
  \<^verbatim>\<open>requireParentTextures\<close> the flag of that setter is true after every sequence of
  operations of the node.  Each setter sets its flag and takes the dirty-terrain path;
  that call notifies the views exactly once when the dirty counter was 0, and not at all
  otherwise.
\<close>

theorem requirement_flags_monotonic:
  fixes s :: "'w::len engine"
  shows "(\<forall>ops s'. run ops (requireNormalTextures s) = Inr s' \<longrightarrow> m_requireNormalTextures s')
    \<and> (\<forall>ops s'. run ops (requireElevationTextures s) = Inr s' \<longrightarrow> m_requireElevationTextures s')
    \<and> (\<forall>ops s'. run ops (requireParentTextures s) = Inr s' \<longrightarrow> m_requireParentTextures s')
    \<and> requireNormalTextures s = dirtyTerrain (s\<lparr>m_requireNormalTextures := True\<rparr>)
    \<and> requireElevationTextures s = dirtyTerrain (s\<lparr>m_requireElevationTextures := True\<rparr>)
    \<and> requireParentTextures s = dirtyTerrain (s\<lparr>m_requireParentTextures := True\<rparr>)
    \<and> (m_dirtyCount s = 0 \<longrightarrow>
          calls (requireNormalTextures s) = calls s @ [RequestRedraw]
        \<and> calls (requireElevationTextures s) = calls s @ [RequestRedraw]
        \<and> calls (requireParentTextures s) = calls s @ [RequestRedraw])
    \<and> (m_dirtyCount s \<noteq> 0 \<longrightarrow>
          calls (requireNormalTextures s) = calls s
        \<and> calls (requireElevationTextures s) = calls s
        \<and> calls (requireParentTextures s) = calls s)"
proof -
  have n: "m_requireNormalTextures (requireNormalTextures s)"
    by (simp add: requireNormalTextures_def dirtyTerrain_def requestRedraw_def emit_def Let_def)
  have e: "m_requireElevationTextures (requireElevationTextures s)"
    by (simp add: requireElevationTextures_def dirtyTerrain_def requestRedraw_def emit_def Let_def)
  have p: "m_requireParentTextures (requireParentTextures s)"
    by (simp add: requireParentTextures_def dirtyTerrain_def requestRedraw_def emit_def Let_def)
  have 1: "\<forall>ops s'. run ops (requireNormalTextures s) = Inr s' \<longrightarrow> m_requireNormalTextures s'"
    using n run_requirements by blast
  have 2: "\<forall>ops s'. run ops (requireElevationTextures s) = Inr s' \<longrightarrow> m_requireElevationTextures s'"
    using e run_requirements by blast
  have 3: "\<forall>ops s'. run ops (requireParentTextures s) = Inr s' \<longrightarrow> m_requireParentTextures s'"
    using p run_requirements by blast
  have 4: "m_dirtyCount s = 0 \<longrightarrow>
          calls (requireNormalTextures s) = calls s @ [RequestRedraw]
        \<and> calls (requireElevationTextures s) = calls s @ [RequestRedraw]
        \<and> calls (requireParentTextures s) = calls s @ [RequestRedraw]"
    by (simp add: requireNormalTextures_def requireElevationTextures_def
        requireParentTextures_def setter_calls)
  have 5: "m_dirtyCount s \<noteq> 0 \<longrightarrow>
          calls (requireNormalTextures s) = calls s
        \<and> calls (requireElevationTextures s) = calls s
        \<and> calls (requireParentTextures s) = calls s"
    by (simp add: requireNormalTextures_def requireElevationTextures_def
        requireParentTextures_def setter_calls)
  show ?thesis
    using 1 2 3 4 5
    by (simp add: requireNormalTextures_def requireElevationTextures_def
        requireParentTextures_def)
qed

text \<open>
  The theorem on the freshly constructed node, whose counter is 0, and on the node after
  one setter, whose counter is 1.
\<close>

theorem requirement_flags_monotonic_witness:
  "map_sum id m_requireNormalTextures
     (run [Op_traverse EVENT_VISITOR, Op_addEffect (Some 1), Op_setVerticalScale 0]
        (requireNormalTextures (TerrainEngineNode :: 32 engine))) = Inr True
   \<and> m_dirtyCount (TerrainEngineNode :: 32 engine) = 0
   \<and> calls (requireNormalTextures (TerrainEngineNode :: 32 engine))
       = calls (TerrainEngineNode :: 32 engine) @ [RequestRedraw]
   \<and> m_dirtyCount (requireParentTextures (TerrainEngineNode :: 32 engine)) \<noteq> 0
   \<and> calls (requireNormalTextures (requireParentTextures (TerrainEngineNode :: 32 engine)))
       = calls (requireParentTextures (TerrainEngineNode :: 32 engine))"
proof -
  let ?T = "TerrainEngineNode :: 32 engine"
  let ?ops = "[Op_traverse EVENT_VISITOR, Op_addEffect (Some 1), Op_setVerticalScale 0]"
  obtain s' where r: "run ?ops (requireNormalTextures ?T) = Inr s'"
    by (simp add: traverse_def)
  have z: "m_dirtyCount ?T = 0" by (simp add: TerrainEngineNode_def)
  have nz: "m_dirtyCount (requireParentTextures ?T) \<noteq> 0"
    by (simp add: requireParentTextures_def dirtyTerrain_def m_dirtyCount_requestRedraw
        TerrainEngineNode_def)
  have "m_requireNormalTextures s'"
    using requirement_flags_monotonic [of ?T] r by blast
  moreover have "calls (requireNormalTextures ?T) = calls ?T @ [RequestRedraw]"
    using requirement_flags_monotonic [of ?T] z by blast
  moreover have "calls (requireNormalTextures (requireParentTextures ?T))
       = calls (requireParentTextures ?T)"
    using requirement_flags_monotonic [of "requireParentTextures ?T"] nz by blast
  ultimately show ?thesis using r z nz by simp
qed

subsection \<open>Effects\<close>

text \<open>
  Claim C6, as the code has it.  \<^verbatim>\<open>addEffect(null)\<close> and \<^verbatim>\<open>removeEffect(null)\<close> leave the node
  as it is: no hook, no change of the effect list, no dirtying.  \<^verbatim>\<open>removeEffect\<close> of a
  non-null effect that is not in the list leaves the effect list, the dirty counter and
  every other field as they are and requests no redraw, but it does call the uninstall
  hook of the effect once and then \<^verbatim>\<open>dirtyState()\<close>.
\<close>

theorem effect_noop_cases:
  fixes s :: "'w::len engine"
  shows "addEffect None s = s
    \<and> removeEffect None s = s
    \<and> (e \<notin> set (m_effects s) \<longrightarrow>
         removeEffect (Some e) s = s\<lparr>calls := calls s @ [OnUninstall e, DirtyState]\<rparr>)"
  by (simp add: addEffect_def removeEffect_def dirtyState_def emit_def remove1_idem)

text \<open>
  The theorem at the node that holds the effect 4 only, for the effect 3: the list and
  the counter stay, the log grows.
\<close>

theorem effect_noop_cases_witness:
  "3 \<notin> set (m_effects (addEffect (Some 4) (TerrainEngineNode :: 32 engine)))
   \<and> m_effects (removeEffect (Some 3) (addEffect (Some 4) (TerrainEngineNode :: 32 engine))) = [4]
   \<and> m_dirtyCount (removeEffect (Some 3) (addEffect (Some 4) (TerrainEngineNode :: 32 engine))) = 0"
  using effect_noop_cases [where e = 3 and s = "addEffect (Some 4) (TerrainEngineNode :: 32 engine)"]
  by (simp add: addEffect_def TerrainEngineNode_def dirtyState_def emit_def)

text \<open>
  Claim C6 as stated fails: on the freshly constructed node, which holds no effect,
  \<^verbatim>\<open>removeEffect\<close> of the effect 7 calls its uninstall hook and \<^verbatim>\<open>dirtyState()\<close>.
\<close>

theorem removeEffect_never_added_counterexample:
  "7 \<notin> set (m_effects (TerrainEngineNode :: 32 engine))
   \<and> calls (removeEffect (Some 7) (TerrainEngineNode :: 32 engine))
       = calls (TerrainEngineNode :: 32 engine) @ [OnUninstall 7, DirtyState]
   \<and> removeEffect (Some 7) (TerrainEngineNode :: 32 engine) \<noteq> TerrainEngineNode"
  by (simp add: removeEffect_def TerrainEngineNode_def dirtyState_def emit_def)

text \<open>
  Claim C7, as the code has it.  For a non-null effect \<open>e\<close> that the effect list does not
  hold yet, \<^verbatim>\<open>addEffect(e)\<close> followed by \<^verbatim>\<open>removeEffect(e)\<close> restores the effect list (and
  every field of the node).  For every prior effect list the two calls restore the list
  up to the order of its elements, and they call the install hook of \<open>e\<close>,
  \<^verbatim>\<open>dirtyState()\<close>, the uninstall hook of \<open>e\<close> and \<^verbatim>\<open>dirtyState()\<close>, each once and in
  that order.
\<close>

theorem addEffect_removeEffect:
  fixes s :: "'w::len engine"
  shows "(e \<notin> set (m_effects s) \<longrightarrow>
           removeEffect (Some e) (addEffect (Some e) s)
             = s\<lparr>calls := calls s @ [OnInstall e, DirtyState, OnUninstall e, DirtyState]\<rparr>)
    \<and> mset (m_effects (removeEffect (Some e) (addEffect (Some e) s))) = mset (m_effects s)
    \<and> calls (removeEffect (Some e) (addEffect (Some e) s))
        = calls s @ [OnInstall e, DirtyState, OnUninstall e, DirtyState]"
  by (simp add: addEffect_def removeEffect_def dirtyState_def emit_def remove1_append_fresh)

text \<open>The theorem at the node that holds the effect 4 only, for the effect 9.\<close>

theorem addEffect_removeEffect_witness:
  "9 \<notin> set (m_effects (addEffect (Some 4) (TerrainEngineNode :: 32 engine)))
   \<and> m_effects (removeEffect (Some 9) (addEffect (Some 9)
        (addEffect (Some 4) (TerrainEngineNode :: 32 engine)))) = [4]"
  using addEffect_removeEffect
    [where e = 9 and s = "addEffect (Some 4) (TerrainEngineNode :: 32 engine)"]
  by (simp add: addEffect_def removeEffect_def TerrainEngineNode_def dirtyState_def emit_def)

text \<open>
  Claim C7 as stated fails when the list already holds the effect before another one:
  from the list \<open>[1, 2]\<close>, adding 1 gives \<open>[1, 2, 1]\<close> and removing 1 erases the first
  occurrence, which leaves \<open>[2, 1]\<close>.
\<close>

theorem addEffect_removeEffect_counterexample:
  "m_effects (addEffect (Some 2) (addEffect (Some 1) (TerrainEngineNode :: 32 engine))) = [1, 2]
   \<and> m_effects (removeEffect (Some 1) (addEffect (Some 1)
        (addEffect (Some 2) (addEffect (Some 1) (TerrainEngineNode :: 32 engine))))) = [2, 1]"
  by (simp add: addEffect_def removeEffect_def TerrainEngineNode_def dirtyState_def emit_def)

subsection \<open>The tile patch callbacks\<close>

text \<open>
  Claim C9 does not hold of the code.  \<^verbatim>\<open>removeTilePatchCallback\<close> never shortens the
  registry: after \<^verbatim>\<open>addTilePatchCallback(cb)\<close> and \<^verbatim>\<open>removeTilePatchCallback(cb)\<close> the
  registry is one entry longer than before, for every callback and every prior registry.
  On the freshly constructed node the callback 5 is still registered after the two calls.
\<close>

theorem removeTilePatchCallback_keeps_length:
  fixes s :: "'w::len engine"
  shows "length (m_tilePatchCallbacks (removeTilePatchCallback cb (addTilePatchCallback cb s)))
           = Suc (length (m_tilePatchCallbacks s))
    \<and> m_tilePatchCallbacks (removeTilePatchCallback cb (addTilePatchCallback cb s))
         \<noteq> m_tilePatchCallbacks s
    \<and> m_tilePatchCallbacks (removeTilePatchCallback (Some 5)
         (addTilePatchCallback (Some 5) (TerrainEngineNode :: 32 engine))) = [Some 5]
    \<and> m_tilePatchCallbacks (TerrainEngineNode :: 32 engine) = []"
proof -
  have len: "length (m_tilePatchCallbacks (removeTilePatchCallback cb (addTilePatchCallback cb s)))
           = Suc (length (m_tilePatchCallbacks s))"
    by (simp add: removeTilePatchCallback_def addTilePatchCallback_def length_std_remove)
  then have "m_tilePatchCallbacks (removeTilePatchCallback cb (addTilePatchCallback cb s))
         \<noteq> m_tilePatchCallbacks s"
    by (metis n_not_Suc_n)
  moreover have "m_tilePatchCallbacks (removeTilePatchCallback (Some 5)
         (addTilePatchCallback (Some 5) (TerrainEngineNode :: 32 engine))) = [Some 5]"
    by (simp add: removeTilePatchCallback_def addTilePatchCallback_def TerrainEngineNode_def
        std_remove_def)
  moreover have "m_tilePatchCallbacks (TerrainEngineNode :: 32 engine) = []"
    by (simp add: TerrainEngineNode_def)
  ultimately show ?thesis using len by simp
qed

subsection \<open>The map callback proxy\<close>

text \<open>
  Claim C8.  A notification through the proxy, \<^verbatim>\<open>onMapInfoEstablished\<close> or
  \<^verbatim>\<open>onMapModelChanged\<close>, reaches the handler of the node exactly when the weak reference
  resolves: with a live node the outcome is the outcome of the node's handler, and with
  a destroyed node the notification is dropped, without a failure and without a node to
  act on.
\<close>

theorem proxy_upcall_iff_alive:
  fixes s :: "'w::len engine"
  shows "proxy_onMapInfoEstablished mapInfo (None :: 'w engine option) = Inr None
    \<and> proxy_onMapModelChanged change (None :: 'w engine option) = Inr None
    \<and> proxy_onMapInfoEstablished mapInfo (Some s)
        = map_sum id Some (onMapInfoEstablished mapInfo s)
    \<and> proxy_onMapModelChanged change (Some s)
        = map_sum id Some (onMapModelChanged change s)"
  by (simp add: proxy_onMapInfoEstablished_def proxy_onMapModelChanged_def split: sum.splits)

subsection \<open>The vertical scale\<close>

text \<open>
  Claim C10.  For every value \<open>v\<close>, \<^verbatim>\<open>setVerticalScale(v)\<close> assigns the vertical scale and
  calls the hook \<^verbatim>\<open>onVerticalScaleChanged()\<close>, and nothing else: the dirty counter, the
  effect list, the callback registries and the requirement flags stay as they are, and
  the only call it makes is the hook, so no redraw is requested.
\<close>

theorem setVerticalScale_frame:
  fixes s :: "'w::len engine"
  shows "setVerticalScale v s
           = s\<lparr>m_verticalScale := v, calls := calls s @ [OnVerticalScaleChanged]\<rparr>
    \<and> m_verticalScale (setVerticalScale v s) = v
    \<and> calls (setVerticalScale v s) = calls s @ [OnVerticalScaleChanged]
    \<and> m_dirtyCount (setVerticalScale v s) = m_dirtyCount s
    \<and> m_effects (setVerticalScale v s) = m_effects s
    \<and> m_createTileModelCallbacks (setVerticalScale v s) = m_createTileModelCallbacks s
    \<and> m_tilePatchCallbacks (setVerticalScale v s) = m_tilePatchCallbacks s
    \<and> m_tileNodeCallbacks (setVerticalScale v s) = m_tileNodeCallbacks s
    \<and> requirements_of (setVerticalScale v s) = requirements_of s"
  by (simp add: setVerticalScale_def emit_def requirements_of_def)

end
